theory Spec2Isabelle
  imports Complex_Main
begin

section \<open>Types and constants of bump.h\<close>

text \<open>
  \<^verbatim>\<open>using Number = double\<close>. A \<^verbatim>\<open>Number\<close> is modelled by the real number it
  stands for, and every arithmetic operation of the source (\<open>+\<close>, \<open>-\<close>, \<open>*\<close>,
  \<open>/\<close>) by the exact operation followed by \<open>fl\<close>, the rounding of a real to the
  nearest double with ties to the even significand (IEEE 754 binary64, each operation
  rounded once). Negation, \<^verbatim>\<open>std::abs\<close>, \<^verbatim>\<open>std::min\<close> and the comparisons are
  exact. \<open>expOf v\<close> is the binary exponent of \<open>v\<close>, not below that of the smallest
  normal double, so that \<open>2 powi (expOf v - 52)\<close> is the spacing of the doubles around
  \<open>v\<close>. What the model leaves out: a result beyond \<open>maxNumber\<close> in magnitude (the
  source gets an infinity), NaN, and the sign of zero.
  \<open>isDouble v\<close> says that \<open>v\<close> is a double: rounding leaves it as it is.

  \<^verbatim>\<open>using Item = void*\<close> is an opaque address, with \<^verbatim>\<open>nullptr\<close> the address 0.
  The fields of the structs carry a prefix (\<open>P_\<close>, \<open>R_\<close>, \<open>col_\<close>, \<open>c_\<close>,
  \<open>w_\<close>), so that \<open>x\<close>, \<open>y\<close>, \<open>w\<close>, \<open>h\<close> and \<open>ti\<close> stay free for the
  parameters of the functions.
\<close>

type_synonym Number = real
type_synonym Item = nat

definition roundHalfEven :: "real \<Rightarrow> int" where
  "roundHalfEven v =
     (let f = \<lfloor>v\<rfloor>; d = v - of_int f
      in if d < 1 / 2 then f else if 1 / 2 < d then f + 1 else if even f then f else f + 1)"

definition expOf :: "real \<Rightarrow> int" where
  "expOf v = max \<lfloor>log 2 \<bar>v\<bar>\<rfloor> (- 1022)"

definition fl :: "real \<Rightarrow> Number" where
  "fl v = (if v = 0 then 0
           else of_int (roundHalfEven (v / 2 powi (expOf v - 52))) * 2 powi (expOf v - 52))"

definition isDouble :: "real \<Rightarrow> bool" where
  "isDouble v = (fl v = v)"

definition nullptr :: Item where
  "nullptr = 0"

text \<open>
  \<^verbatim>\<open>static const double deltaError = 1e-10\<close>: the double nearest to \<open>1 / 10 ^ 10\<close>.
\<close>

definition deltaError :: Number where
  "deltaError = fl (1 / 10 ^ 10)"

text \<open>\<^verbatim>\<open>std::numeric_limits<double>::max()\<close>, the largest finite double.\<close>

definition maxNumber :: Number where
  "maxNumber = (2 ^ 53 - 1) * 2 ^ 971"

datatype error = ComputationError | NotFoundError

record Point =
  P_x :: Number
  P_y :: Number

record Rectangle =
  R_x :: Number
  R_y :: Number
  R_w :: Number
  R_h :: Number

record Collision =
  col_move :: Point
  col_normal :: Point
  col_touch :: Point
  col_itemRect :: Rectangle
  col_otherRect :: Rectangle
  col_overlaps :: bool
  col_ti :: Number
  col_item :: Item
  col_other :: Item
  col_slide :: Point
  col_bounce :: Point

section \<open>Auxiliary functions\<close>

definition sign :: "Number \<Rightarrow> int" where
  "sign v = (if v > 0 then 1 else if v < 0 then - 1 else 0)"

definition nearest :: "Number \<Rightarrow> Number \<Rightarrow> Number \<Rightarrow> Number" where
  "nearest v first second =
     (if \<bar>fl (first - v)\<bar> < \<bar>fl (second - v)\<bar> then first else second)"

section \<open>Rectangle functions\<close>

definition getNearestCorner ::
  "Number \<Rightarrow> Number \<Rightarrow> Number \<Rightarrow> Number \<Rightarrow> Number \<Rightarrow> Number \<Rightarrow> Number \<times> Number" where
  "getNearestCorner x y w h px py =
     (let nearestX = nearest px x (fl (x + w));
          nearestY = nearest py y (fl (y + h))
      in (nearestX, nearestY))"

definition getDiff ::
  "Number \<Rightarrow> Number \<Rightarrow> Number \<Rightarrow> Number \<Rightarrow> Number \<Rightarrow> Number \<Rightarrow> Number \<Rightarrow> Number
     \<Rightarrow> Number \<times> Number \<times> Number \<times> Number" where
  "getDiff x1 y1 w1 h1 x2 y2 w2 h2 =
     (fl (fl (x2 - x1) - w1), fl (fl (y2 - y1) - h1), fl (w1 + w2), fl (h1 + h2))"

definition containsPoint ::
  "Number \<Rightarrow> Number \<Rightarrow> Number \<Rightarrow> Number \<Rightarrow> Number \<Rightarrow> Number \<Rightarrow> bool" where
  "containsPoint x y w h px py =
     (fl (px - x) > deltaError \<and> fl (py - y) > deltaError \<and>
      fl (fl (x + w) - px) > deltaError \<and> fl (fl (y + h) - py) > deltaError)"

definition isIntersecting ::
  "Number \<Rightarrow> Number \<Rightarrow> Number \<Rightarrow> Number \<Rightarrow> Number \<Rightarrow> Number \<Rightarrow> Number \<Rightarrow> Number \<Rightarrow> bool" where
  "isIntersecting x1 y1 w1 h1 x2 y2 w2 h2 =
     (x1 < fl (x2 + w2) \<and> x2 < fl (x1 + w1) \<and> y1 < fl (y2 + h2) \<and> y2 < fl (y1 + h1))"

text \<open>
  \<^verbatim>\<open>getSegmentIntersectionIndices\<close>. The loop \<^verbatim>\<open>for (side = 1; side <= 4; side++)\<close>
  runs over the four sides; \<open>sideParams\<close> is its \<^verbatim>\<open>switch\<close>, giving
  \<open>(nx, ny, p, q)\<close> for a side, and \<open>clipSide\<close> is the rest of the loop body on the
  state \<open>(ti1, ti2, nx1, ny1, nx2, ny2)\<close>. A \<^verbatim>\<open>throw Exception::ComputationError()\<close>
  is the result \<open>Inl ComputationError\<close> and ends the loop.
\<close>

type_synonym clipState = "Number \<times> Number \<times> Number \<times> Number \<times> Number \<times> Number"

definition sideParams ::
  "Number \<Rightarrow> Number \<Rightarrow> Number \<Rightarrow> Number \<Rightarrow> Number \<Rightarrow> Number \<Rightarrow> Number \<Rightarrow> Number \<Rightarrow> nat
     \<Rightarrow> Number \<times> Number \<times> Number \<times> Number" where
  "sideParams x y w h x1 y1 dx dy side =
     (if side = 1 then (- 1, 0, - dx, fl (x1 - x))
      else if side = 2 then (1, 0, dx, fl (fl (x + w) - x1))
      else if side = 3 then (0, - 1, - dy, fl (y1 - y))
      else (0, 1, dy, fl (fl (y + h) - y1)))"

definition clipSide :: "Number \<times> Number \<times> Number \<times> Number \<Rightarrow> clipState \<Rightarrow> error + clipState" where
  "clipSide side s =
     (case side of (nx, ny, p, q) \<Rightarrow>
      case s of (ti1, ti2, nx1, ny1, nx2, ny2) \<Rightarrow>
        if p = 0 then
          (if q \<le> 0 then Inl ComputationError else Inr s)
        else
          (let r = fl (q / p) in
           if p < 0 then
             (if r > ti2 then Inl ComputationError
              else if r > ti1 then Inr (r, ti2, nx, ny, nx2, ny2)
              else Inr s)
           else
             (if r < ti1 then Inl ComputationError
              else if r < ti2 then Inr (ti1, r, nx1, ny1, nx, ny)
              else Inr s)))"

fun clipSides :: "(Number \<times> Number \<times> Number \<times> Number) list \<Rightarrow> clipState \<Rightarrow> error + clipState" where
  "clipSides [] s = Inr s"
| "clipSides (side # sides) s =
     (case clipSide side s of Inl e \<Rightarrow> Inl e | Inr s' \<Rightarrow> clipSides sides s')"

definition getSegmentIntersectionIndices ::
  "Number \<Rightarrow> Number \<Rightarrow> Number \<Rightarrow> Number \<Rightarrow> Number \<Rightarrow> Number \<Rightarrow> Number \<Rightarrow> Number
     \<Rightarrow> Number \<Rightarrow> Number \<Rightarrow> error + clipState" where
  "getSegmentIntersectionIndices x y w h x1 y1 x2 y2 ti1 ti2 =
     (let dx = fl (x2 - x1); dy = fl (y2 - y1)
      in clipSides (map (sideParams x y w h x1 y1 dx dy) [1, 2, 3, 4]) (ti1, ti2, 0, 0, 0, 0))"

text \<open>
  \<^verbatim>\<open>detectCollision\<close>. The two calls of \<^verbatim>\<open>getSegmentIntersectionIndices\<close> stand
  in no \<^verbatim>\<open>try\<close> block, so an error of either is the result of \<^verbatim>\<open>detectCollision\<close>.
  The first \<open>case\<close> is the source's first \<^verbatim>\<open>if\<close>/\<^verbatim>\<open>else\<close>, which sets
  \<open>(overlaps, ti, nx, ny)\<close>; the second one is the \<^verbatim>\<open>if (overlaps)\<close>, which sets
  \<open>(nx, ny, tx, ty)\<close>. The test \<^verbatim>\<open>ti < 1\<close> of the source reads \<open>ti\<close>, which is
  still \<open>0\<close> there.
\<close>

definition detectCollision ::
  "Number \<Rightarrow> Number \<Rightarrow> Number \<Rightarrow> Number \<Rightarrow> Number \<Rightarrow> Number \<Rightarrow> Number \<Rightarrow> Number
     \<Rightarrow> Number \<Rightarrow> Number \<Rightarrow> error + Collision" where
  "detectCollision x1 y1 w1 h1 x2 y2 w2 h2 goalX goalY =
     (let dx = fl (goalX - x1); dy = fl (goalY - y1) in
      case getDiff x1 y1 w1 h1 x2 y2 w2 h2 of (x, y, w, h) \<Rightarrow>
      let overlaps = False; ti = 0; nx = 0; ny = 0 in
      case
        (if containsPoint x y w h 0 0 then
           (case getNearestCorner x y w h 0 0 of (px, py) \<Rightarrow>
              let wi = min w1 \<bar>px\<bar>; hi = min h1 \<bar>py\<bar>
              in Inr (True, fl (- wi * hi), nx, ny))
         else
           (case getSegmentIntersectionIndices x y w h 0 0 dx dy (- maxNumber) maxNumber of
              Inl e \<Rightarrow> Inl e
            | Inr (ti1, ti2, nx1, ny1, nx2, ny2) \<Rightarrow>
                if ti < 1 \<and> \<bar>fl (ti1 - ti2)\<bar> \<ge> deltaError \<and>
                   (fl (ti1 + deltaError) > 0 \<or> (ti1 = 0 \<and> ti2 > 0))
                then Inr (False, ti1, nx1, ny1)
                else Inr (overlaps, ti, nx, ny)))
      of
        Inl e \<Rightarrow> Inl e
      | Inr (overlaps, ti, nx, ny) \<Rightarrow>
          (case
             (if overlaps then
                (if dx = 0 \<and> dy = 0 then
                   (case getNearestCorner x y w h 0 0 of (px, py) \<Rightarrow>
                      case (if \<bar>px\<bar> < \<bar>py\<bar> then (px, 0) else (0, py)) of (px, py) \<Rightarrow>
                        Inr (of_int (sign px), of_int (sign py), fl (x1 + px), fl (y1 + py)))
                 else
                   (case getSegmentIntersectionIndices x y w h 0 0 dx dy (- maxNumber) 1 of
                      Inl e \<Rightarrow> Inl e
                    | Inr (ti1, u1, nx', ny', u2, u3) \<Rightarrow>
                        Inr (nx', ny', fl (x1 + fl (dx * ti1)), fl (y1 + fl (dy * ti1)))))
              else Inr (nx, ny, fl (x1 + fl (dx * ti)), fl (y1 + fl (dy * ti))))
           of
             Inl e \<Rightarrow> Inl e
           | Inr (nx, ny, tx, ty) \<Rightarrow>
               Inr \<lparr>col_move = \<lparr>P_x = dx, P_y = dy\<rparr>,
                    col_normal = \<lparr>P_x = nx, P_y = ny\<rparr>,
                    col_touch = \<lparr>P_x = tx, P_y = ty\<rparr>,
                    col_itemRect = \<lparr>R_x = x1, R_y = y1, R_w = w1, R_h = h1\<rparr>,
                    col_otherRect = \<lparr>R_x = x2, R_y = y2, R_w = w2, R_h = h2\<rparr>,
                    col_overlaps = overlaps, col_ti = ti,
                    col_item = nullptr, col_other = nullptr,
                    col_slide = \<lparr>P_x = 0, P_y = 0\<rparr>,
                    col_bounce = \<lparr>P_x = 0, P_y = 0\<rparr>\<rparr>))"

section \<open>Grid functions\<close>

text \<open>
  \<^verbatim>\<open>static_cast<Number>(x / cellSize) + 1\<close>: the cast is to \<^verbatim>\<open>Number\<close>, the type
  the quotient already has, so it leaves the quotient as it is.
\<close>

definition toWorld :: "Number \<Rightarrow> Number \<Rightarrow> Number \<Rightarrow> Number \<times> Number" where
  "toWorld cellSize cx cy = (fl (fl (cx - 1) * cellSize), fl (fl (cy - 1) * cellSize))"

definition toCell :: "Number \<Rightarrow> Number \<Rightarrow> Number \<Rightarrow> Number \<times> Number" where
  "toCell cellSize x y = (fl (fl (x / cellSize) + 1), fl (fl (y / cellSize) + 1))"

section \<open>Responses and the world\<close>

text \<open>
  \<^verbatim>\<open>struct Cell\<close> and \<^verbatim>\<open>class World\<close>. A cell is addressed by its position
  \<open>(iy, ix)\<close> in \<^verbatim>\<open>rows\<close>; the keys \<^verbatim>\<open>Cell*\<close> of \<^verbatim>\<open>nonEmptyCells\<close> are
  these positions. The table \<^verbatim>\<open>responses\<close> of named response functions is not part
  of the record: no operation modelled here reads it.
\<close>

record Cell =
  c_itemCount :: Number
  c_x :: Number
  c_y :: Number
  c_items :: "Item list"

definition emptyCell :: Cell where
  "emptyCell = \<lparr>c_itemCount = 0, c_x = 0, c_y = 0, c_items = []\<rparr>"

record World =
  w_cellSize :: Number
  w_rows :: "Cell list list"
  w_rects :: "Rectangle list"
  w_nonEmptyCells :: "nat \<times> nat \<rightharpoonup> bool"

definition newWorld :: "Number \<Rightarrow> World" where
  "newWorld cellSize0 = \<lparr>w_cellSize = cellSize0, w_rows = [], w_rects = [], w_nonEmptyCells = Map.empty\<rparr>"

type_synonym Filter = "Item \<Rightarrow> Item \<Rightarrow> bool"
type_synonym Collisions = "Collision list \<times> nat"
type_synonym Response = "Number \<times> Number \<times> Collision list \<times> nat"

text \<open>
  \<^verbatim>\<open>World::project\<close> as the source has it: it returns no collision and the count 0,
  whatever it is given.
\<close>

type_synonym Project =
  "World \<Rightarrow> Item \<Rightarrow> Number \<Rightarrow> Number \<Rightarrow> Number \<Rightarrow> Number \<Rightarrow> Number \<Rightarrow> Number \<Rightarrow> Filter
     \<Rightarrow> Collisions"

definition World_project :: Project where
  "World_project world item x y w h goalX goalY flt = ([], 0)"

text \<open>
  The response functions. Each one takes \<^verbatim>\<open>Collision &col\<close> by reference and
  \<^verbatim>\<open>slide\<close> and \<^verbatim>\<open>bounce\<close> write to it, so each returns the collision next to
  its \<^verbatim>\<open>Response\<close>. The call \<^verbatim>\<open>world.project(...)\<close> is the first argument
  \<open>project\<close>, so that what a response passes to it can be stated for any body of
  \<^verbatim>\<open>World::project\<close>; the source's own body is \<open>World_project\<close>.
\<close>

definition touch ::
  "Project \<Rightarrow> World \<Rightarrow> Collision \<Rightarrow> Number \<Rightarrow> Number \<Rightarrow> Number \<Rightarrow> Number \<Rightarrow> Number \<Rightarrow> Number
     \<Rightarrow> Filter \<Rightarrow> Response \<times> Collision" where
  "touch project world col x y w h goalX goalY flt =
     ((P_x (col_touch col), P_y (col_touch col), [], 0), col)"

definition cross ::
  "Project \<Rightarrow> World \<Rightarrow> Collision \<Rightarrow> Number \<Rightarrow> Number \<Rightarrow> Number \<Rightarrow> Number \<Rightarrow> Number \<Rightarrow> Number
     \<Rightarrow> Filter \<Rightarrow> Response \<times> Collision" where
  "cross project world col x y w h goalX goalY flt =
     (case project world (col_item col) x y w h goalX goalY flt of (cols, len) \<Rightarrow>
        ((goalX, goalY, cols, len), col))"

definition slide ::
  "Project \<Rightarrow> World \<Rightarrow> Collision \<Rightarrow> Number \<Rightarrow> Number \<Rightarrow> Number \<Rightarrow> Number \<Rightarrow> Number \<Rightarrow> Number
     \<Rightarrow> Filter \<Rightarrow> Response \<times> Collision" where
  "slide project world col x y w h goalX goalY flt =
     (let tch = col_touch col; mv = col_move col;
          sx = P_x tch; sy = P_y tch
      in
      case (if P_x mv \<noteq> 0 \<or> P_y mv \<noteq> 0 then
              (if P_x (col_normal col) = 0 then (goalX, sy) else (sx, goalY))
            else (sx, sy)) of (sx, sy) \<Rightarrow>
      let col' = col\<lparr>col_slide := \<lparr>P_x = sx, P_y = sy\<rparr>\<rparr>;
          newX = P_x tch; newY = P_y tch;
          newGoalX = sx; newGoalY = sy
      in
      case project world (col_item col') newX newY w h newGoalX newGoalY flt of
        (cols, len) \<Rightarrow> ((newGoalX, newGoalY, cols, len), col'))"

definition bounce ::
  "Project \<Rightarrow> World \<Rightarrow> Collision \<Rightarrow> Number \<Rightarrow> Number \<Rightarrow> Number \<Rightarrow> Number \<Rightarrow> Number \<Rightarrow> Number
     \<Rightarrow> Filter \<Rightarrow> Response \<times> Collision" where
  "bounce project world col x y w h goalX goalY flt =
     (let tch = col_touch col; mv = col_move col;
          tx = P_x tch; ty = P_y tch
      in
      case (if P_x mv \<noteq> 0 \<or> P_y mv \<noteq> 0 then
              (case (fl (goalX - tx), fl (goalY - ty)) of (bnx, bny) \<Rightarrow>
               case (if P_x (col_normal col) = 0 then (bnx, - bny) else (- bnx, bny)) of
                 (bnx, bny) \<Rightarrow> (fl (tx + bnx), fl (ty + bny)))
            else (tx, ty)) of (bx, by) \<Rightarrow>
      let col' = col\<lparr>col_bounce := \<lparr>P_x = bx, P_y = by\<rparr>\<rparr>;
          newX = P_x tch; newY = P_y tch;
          newGoalX = bx; newGoalY = by
      in
      case project world (col_item col') newX newY w h newGoalX newGoalY flt of
        (cols, len) \<Rightarrow> ((newGoalX, newGoalY, cols, len), col'))"

text \<open>
  \<^verbatim>\<open>World::addItemToCell\<close>. \<^verbatim>\<open>static_cast<Index>\<close> truncates toward zero;
  \<^verbatim>\<open>resize\<close> appends value-initialised elements. A negative index, or one beyond
  the range of \<^verbatim>\<open>std::int32_t\<close>, has no defined behaviour in the source: the result
  is \<open>None\<close>. The body ends after the entry in \<^verbatim>\<open>nonEmptyCells\<close>: \<open>item\<close> is
  not used.
\<close>

definition toIndex :: "Number \<Rightarrow> int" where
  "toIndex v = (if 0 \<le> v then \<lfloor>v\<rfloor> else \<lceil>v\<rceil>)"

definition resize :: "'a list \<Rightarrow> nat \<Rightarrow> 'a \<Rightarrow> 'a list" where
  "resize xs n d = take n xs @ replicate (n - length xs) d"

definition addItemToCell :: "World \<Rightarrow> Item \<Rightarrow> Number \<Rightarrow> Number \<Rightarrow> World option" where
  "addItemToCell world item cx cy =
     (let ix = toIndex cx; iy = toIndex cy in
      if ix < 0 \<or> iy < 0 \<or> 2 ^ 31 - 1 \<le> ix \<or> 2 ^ 31 - 1 \<le> iy then None
      else
        let i = nat iy; j = nat ix;
            rows1 = (if length (w_rows world) < i + 1
                     then resize (w_rows world) (i + 1) [] else w_rows world);
            row = rows1 ! i;
            row1 = (if length row < j + 1 then resize row (j + 1) emptyCell else row)
        in Some (world\<lparr>w_rows := rows1[i := row1],
                        w_nonEmptyCells := (w_nonEmptyCells world)((i, j) \<mapsto> True)\<rparr>))"

text \<open>
  Two stand-ins used to observe a response from outside: a filter that admits every pair,
  and a body for \<^verbatim>\<open>World::project\<close> that reports, in the one collision it returns,
  the rectangle it was asked to move and the goal it was given.
\<close>

definition admitAll :: Filter where
  "admitAll a b = True"

definition reportingProject :: Project where
  "reportingProject world item x y w h goalX goalY flt =
     ([\<lparr>col_move = \<lparr>P_x = fl (goalX - x), P_y = fl (goalY - y)\<rparr>,
        col_normal = \<lparr>P_x = 0, P_y = 0\<rparr>,
        col_touch = \<lparr>P_x = goalX, P_y = goalY\<rparr>,
        col_itemRect = \<lparr>R_x = x, R_y = y, R_w = w, R_h = h\<rparr>,
        col_otherRect = \<lparr>R_x = 0, R_y = 0, R_w = 0, R_h = 0\<rparr>,
        col_overlaps = False, col_ti = 0,
        col_item = item, col_other = nullptr,
        col_slide = \<lparr>P_x = 0, P_y = 0\<rparr>,
        col_bounce = \<lparr>P_x = 0, P_y = 0\<rparr>\<rparr>], 1)"

section \<open>Predicates used to state the properties\<close>

text \<open>
  \<open>smallInt v\<close>: \<open>v\<close> is an integer of magnitude at most \<open>2 ^ 50\<close>. Sums and
  differences of a few such numbers are integers below \<open>2 ^ 53\<close>, which are doubles, so
  that no addition or subtraction on them rounds.
\<close>

definition smallInt :: "real \<Rightarrow> bool" where
  "smallInt v = (v \<in> \<int> \<and> \<bar>v\<bar> \<le> 2 ^ 50)"

text \<open>
  For a list of sides \<open>(nx, ny, p, q)\<close> and bounds \<open>a\<close>, \<open>b\<close>, with
  \<open>fl (q / p)\<close> the parameter the clipping computes for a side: \<open>raisesOn\<close> holds
  when a side parallel to the motion has the start on it or outside it, when an entry
  parameter exceeds \<open>b\<close> or an exit parameter lies below \<open>a\<close>, or when an entry
  parameter exceeds an exit parameter. \<open>entryNormal sides a\<close> is the normal of the first
  entry side of the list whose parameter is \<open>a\<close>, \<open>exitNormal sides b\<close> that of the
  first exit side whose parameter is \<open>b\<close>.
\<close>

definition raisesOn :: "(Number \<times> Number \<times> Number \<times> Number) list \<Rightarrow> Number \<Rightarrow> Number \<Rightarrow> bool" where
  "raisesOn sides a b =
     ((\<exists>(nx, ny, p, q) \<in> set sides. p = 0 \<and> q \<le> 0) \<or>
      (\<exists>(nx, ny, p, q) \<in> set sides. p < 0 \<and> b < fl (q / p)) \<or>
      (\<exists>(nx, ny, p, q) \<in> set sides. 0 < p \<and> fl (q / p) < a) \<or>
      (\<exists>(nx, ny, p, q) \<in> set sides. \<exists>(nx', ny', p', q') \<in> set sides.
         p < 0 \<and> 0 < p' \<and> fl (q' / p') < fl (q / p)))"

definition entryNormal :: "(Number \<times> Number \<times> Number \<times> Number) list \<Rightarrow> Number \<Rightarrow> Number \<times> Number" where
  "entryNormal sides a =
     (case find (\<lambda>(nx, ny, p, q). p < 0 \<and> fl (q / p) = a) sides of
        Some (nx, ny, p, q) \<Rightarrow> (nx, ny) | None \<Rightarrow> (0, 0))"

definition exitNormal :: "(Number \<times> Number \<times> Number \<times> Number) list \<Rightarrow> Number \<Rightarrow> Number \<times> Number" where
  "exitNormal sides b =
     (case find (\<lambda>(nx, ny, p, q). 0 < p \<and> fl (q / p) = b) sides of
        Some (nx, ny, p, q) \<Rightarrow> (nx, ny) | None \<Rightarrow> (0, 0))"

section \<open>Properties of the rounding\<close>

lemma fl_zero [simp]: "fl 0 = 0"
  by (simp add: fl_def)

lemma roundHalfEven_of_int [simp]: "roundHalfEven (of_int n) = n"
  by (simp add: roundHalfEven_def)

lemma roundHalfEven_minus: "roundHalfEven (- v) = - roundHalfEven v"
proof (cases "v \<in> \<int>")
  case True
  then obtain n where "v = of_int n" by (auto elim: Ints_cases)
  then have "roundHalfEven (- v) = roundHalfEven (of_int (- n))" by simp
  also have "\<dots> = - n" by (rule roundHalfEven_of_int)
  finally show ?thesis using \<open>v = of_int n\<close> by simp
next
  case False
  then have ne: "v \<noteq> of_int \<lfloor>v\<rfloor>" by (metis Ints_of_int)
  then have f: "\<lfloor>- v\<rfloor> = - \<lfloor>v\<rfloor> - 1"
    by (simp add: floor_minus ceiling_altdef)
  have d0: "0 < v - of_int \<lfloor>v\<rfloor>"
    using ne of_int_floor_le [of v] by linarith
  have d1: "v - of_int \<lfloor>v\<rfloor> < 1" by linarith
  show ?thesis
    unfolding roundHalfEven_def Let_def f using d0 d1
    by (auto simp: algebra_simps)
qed

lemma expOf_minus [simp]: "expOf (- v) = expOf v"
  by (simp add: expOf_def)

lemma fl_minus [simp]: "fl (- v) = - fl v"
  by (simp add: fl_def roundHalfEven_minus)

lemma expOf_eq:
  assumes "2 powi e \<le> \<bar>v\<bar>" and "\<bar>v\<bar> < 2 powi (e + 1)" and "- 1022 \<le> e"
  shows "expOf v = e"
proof -
  have pos: "0 < \<bar>v\<bar>" using assms(1) by (smt (verit) zero_less_power_int)
  have "(2::real) powr (of_int e) = 2 powi e" "(2::real) powr (of_int e + 1) = 2 powi (e + 1)"
    using powr_real_of_int' [of 2 e] powr_real_of_int' [of 2 "e + 1"] by simp_all
  with assms have "\<lfloor>log 2 \<bar>v\<bar>\<rfloor> = e"
    using floor_log_eq_powr_iff [of "\<bar>v\<bar>" 2 e] pos by simp
  with assms(3) show ?thesis by (simp add: expOf_def)
qed

lemma fl_eval:
  assumes "2 powi e \<le> \<bar>v\<bar>" and "\<bar>v\<bar> < 2 powi (e + 1)" and "- 1022 \<le> e"
  shows "fl v = of_int (roundHalfEven (v / 2 powi (e - 52))) * 2 powi (e - 52)"
proof -
  have "v \<noteq> 0" using assms(1) by (smt (verit) zero_less_power_int)
  then show ?thesis by (simp add: fl_def expOf_eq [OF assms])
qed

lemma powi_neg: "(2::real) powi (- int n) = 1 / 2 ^ n"
  by (simp add: power_int_minus field_simps)

lemma fl_eval_lt1:
  assumes "1 \<le> \<bar>v\<bar> * 2 ^ n" and "\<bar>v\<bar> * 2 ^ n < 2" and "n \<le> 1022"
  shows "fl v = of_int (roundHalfEven (v * 2 ^ (n + 52))) / 2 ^ (n + 52)"
proof -
  have p: "(2::real) powi (- int n) = 1 / 2 ^ n" "(2::real) powi (- int n + 1) = 2 / 2 ^ n"
    using power_int_add [of "2::real" "- int n" 1] by (simp_all add: powi_neg)
  have "1 / 2 ^ n \<le> \<bar>v\<bar>" using assms(1) by (simp add: field_simps)
  then have 1: "2 powi (- int n) \<le> \<bar>v\<bar>" by (simp only: p(1))
  have "\<bar>v\<bar> < 2 / 2 ^ n" using assms(2) by (simp add: field_simps)
  then have 2: "\<bar>v\<bar> < 2 powi (- int n + 1)" by (simp only: p(2))
  have 3: "- 1022 \<le> - int n" using assms(3) by simp
  have "- int n - 52 = - int (n + 52)" by simp
  then have u: "(2::real) powi (- int n - 52) = 1 / 2 ^ (n + 52)"
    by (simp only: powi_neg)
  show ?thesis unfolding fl_eval [OF 1 2 3] u by simp
qed

lemma fl_eval_ge1:
  assumes "2 ^ n \<le> \<bar>v\<bar>" and "\<bar>v\<bar> < 2 ^ (n + 1)" and "n \<le> 52"
  shows "fl v = of_int (roundHalfEven (v * 2 ^ (52 - n))) / 2 ^ (52 - n)"
proof -
  have 1: "2 powi (int n) \<le> \<bar>v\<bar>" using assms(1) by simp
  have 2: "\<bar>v\<bar> < 2 powi (int n + 1)" using assms(2) by (simp add: power_int_add)
  have 3: "- 1022 \<le> int n" by simp
  have "int n - 52 = - int (52 - n)" using assms(3) by simp
  then have u: "(2::real) powi (int n - 52) = 1 / 2 ^ (52 - n)"
    by (simp only: powi_neg)
  show ?thesis unfolding fl_eval [OF 1 2 3] u by simp
qed

lemma fl_eval_big:
  assumes "2 ^ n \<le> \<bar>v\<bar>" and "\<bar>v\<bar> < 2 ^ (n + 1)" and "52 \<le> n"
  shows "fl v = of_int (roundHalfEven (v / 2 ^ (n - 52))) * 2 ^ (n - 52)"
proof -
  have 1: "2 powi (int n) \<le> \<bar>v\<bar>" using assms(1) by simp
  have 2: "\<bar>v\<bar> < 2 powi (int n + 1)" using assms(2) by (simp add: power_int_add)
  have 3: "- 1022 \<le> int n" by simp
  have "int n - 52 = int (n - 52)" using assms(3) by simp
  then have u: "(2::real) powi (int n - 52) = 2 ^ (n - 52)"
    by (metis power_int_of_nat)
  show ?thesis unfolding fl_eval [OF 1 2 3] u by simp
qed

lemma fl_exact:
  assumes v: "v = of_int m * 2 powi k" and m: "\<bar>m\<bar> < 2 ^ 53" and k: "- 1074 \<le> k"
  shows "fl v = v"
proof (cases "v = 0")
  case True
  then show ?thesis by simp
next
  case False
  then have pos: "0 < \<bar>v\<bar>" by simp
  have "\<bar>v\<bar> = of_int \<bar>m\<bar> * 2 powi k" by (simp add: v abs_mult)
  also have "\<dots> < 2 ^ 53 * 2 powi k"
  proof -
    have "(of_int \<bar>m\<bar> :: real) < of_int (2 ^ 53)" using m by (simp only: of_int_less_iff)
    then show ?thesis by simp
  qed
  also have "\<dots> = 2 powi (k + 53)"
    by (simp add: power_int_add)
  finally have lt: "\<bar>v\<bar> < 2 powi (k + 53)" .
  have "(2::real) powr (of_int (k + 53)) = 2 powi (k + 53)"
    using powr_real_of_int' [of 2 "k + 53"] by simp
  with lt pos have "log 2 \<bar>v\<bar> < of_int (k + 53)"
    by (simp add: log_less_iff)
  then have "\<lfloor>log 2 \<bar>v\<bar>\<rfloor> < k + 53" by (simp add: floor_less_iff)
  with k have E: "expOf v - 52 \<le> k" by (simp add: expOf_def)
  define j where "j = nat (k - (expOf v - 52))"
  have kj: "k = (expOf v - 52) + int j" using E by (simp add: j_def)
  have "(2::real) powi k = 2 powi (expOf v - 52) * 2 ^ j"
    by (subst kj) (simp add: power_int_add)
  then have "v = of_int m * (2 powi (expOf v - 52) * 2 ^ j)"
    using v by simp
  then have vu: "v = of_int (m * 2 ^ j) * 2 powi (expOf v - 52)"
    by (simp add: mult_ac)
  have upos: "(0::real) < 2 powi (expOf v - 52)" by simp
  have q: "v / 2 powi (expOf v - 52) = of_int (m * 2 ^ j)"
    by (subst vu) (use upos in \<open>simp del: of_int_mult of_int_power\<close>)
  have "fl v = of_int (m * 2 ^ j) * 2 powi (expOf v - 52)"
    using False unfolding fl_def q roundHalfEven_of_int by simp
  with vu show ?thesis by simp
qed

lemma fl_of_int: "\<bar>n\<bar> < 2 ^ 53 \<Longrightarrow> fl (of_int n) = of_int n"
  using fl_exact [of "of_int n" n 0] by simp

lemma fl_numeral [simp]: "(numeral n :: int) < 2 ^ 53 \<Longrightarrow> fl (numeral n) = numeral n"
  using fl_of_int [of "numeral n"] by simp

lemma fl_neg_numeral [simp]: "(numeral n :: int) < 2 ^ 53 \<Longrightarrow> fl (- numeral n) = - numeral n"
  using fl_of_int [of "- numeral n"] by simp

lemma fl_one [simp]: "fl 1 = 1"
  using fl_of_int [of 1] by simp

lemma fl_neg_one [simp]: "fl (- 1) = - 1"
  using fl_of_int [of "- 1"] by simp

lemma fl_dyadic:
  "\<bar>m\<bar> < 2 ^ 53 \<Longrightarrow> k \<le> 1074 \<Longrightarrow> fl (of_int m / 2 ^ k) = of_int m / 2 ^ k"
  using fl_exact [of "of_int m / 2 ^ k" m "- int k"]
  by (simp add: power_int_minus field_simps)

lemma fl_half [simp]: "fl (1 / 2) = 1 / 2"
  using fl_dyadic [of 1 1] by simp

lemma fl_three_halves [simp]: "fl (3 / 2) = 3 / 2"
  using fl_dyadic [of 3 1] by simp

lemma fl_quarter [simp]: "fl (1 / 4) = 1 / 4"
  using fl_dyadic [of 1 2] by simp

lemma fl_three_quarters [simp]: "fl (3 / 4) = 3 / 4"
  using fl_dyadic [of 3 2] by simp

lemma fl_Ints: "v \<in> \<int> \<Longrightarrow> \<bar>v\<bar> < 2 ^ 53 \<Longrightarrow> fl v = v"
proof -
  assume "v \<in> \<int>" and b: "\<bar>v\<bar> < 2 ^ 53"
  then obtain n where v: "v = of_int n" by (auto elim: Ints_cases)
  with b have "\<bar>of_int n :: real\<bar> < of_int (2 ^ 53)" by simp
  then have "\<bar>n\<bar> < 2 ^ 53" by (metis of_int_abs of_int_less_iff)
  from fl_of_int [OF this] v show ?thesis by simp
qed

lemma smallInt_isDouble: "smallInt v \<Longrightarrow> isDouble v"
  unfolding smallInt_def isDouble_def by (intro fl_Ints) auto

lemma roundHalfEven_ge: "of_int n \<le> t \<Longrightarrow> n \<le> roundHalfEven t"
proof -
  assume "of_int n \<le> t"
  then have "n \<le> \<lfloor>t\<rfloor>" by (simp add: le_floor_iff)
  moreover have "\<lfloor>t\<rfloor> \<le> roundHalfEven t" by (simp add: roundHalfEven_def Let_def)
  ultimately show ?thesis by simp
qed

lemma fl_lower_pos:
  assumes "2 powi e \<le> v" and "- 1022 \<le> e"
  shows "2 powi e \<le> fl v"
proof -
  have pos: "0 < v" using assms(1) by (smt (verit) zero_less_power_int)
  define E where "E = \<lfloor>log 2 v\<rfloor>"
  have "(2::real) powr (of_int E) = 2 powi E" "(2::real) powr (of_int E + 1) = 2 powi (E + 1)"
    using powr_real_of_int' [of 2 E] powr_real_of_int' [of 2 "E + 1"] by simp_all
  with floor_log_eq_powr_iff [of v 2 E] pos
  have E1: "2 powi E \<le> v" "v < 2 powi (E + 1)" by (simp_all add: E_def)
  have eE: "e \<le> E"
  proof (rule ccontr)
    assume "\<not> e \<le> E"
    then have "E + 1 \<le> e" by simp
    then have "(2::real) powi (E + 1) \<le> 2 powi e" by (intro power_int_increasing) simp_all
    with E1(2) assms(1) show False by simp
  qed
  with assms(2) have E2: "- 1022 \<le> E" by simp
  have av: "\<bar>v\<bar> = v" using pos by simp
  from fl_eval [of E v] E1 E2 av
  have f: "fl v = of_int (roundHalfEven (v / 2 powi (E - 52))) * 2 powi (E - 52)" by simp
  have u: "(2::real) powi E = 2 ^ 52 * 2 powi (E - 52)"
    using power_int_add [of "2::real" 52 "E - 52"] by simp
  have "of_int (2 ^ 52) \<le> v / 2 powi (E - 52)"
    using E1(1) unfolding u by (simp add: pos_le_divide_eq)
  then have "(2 ^ 52 :: int) \<le> roundHalfEven (v / 2 powi (E - 52))"
    by (rule roundHalfEven_ge)
  then have "(2 ^ 52 :: real) \<le> of_int (roundHalfEven (v / 2 powi (E - 52)))"
    by (metis of_int_le_iff of_int_numeral of_int_power)
  then have "2 ^ 52 * 2 powi (E - 52) \<le> fl v"
    unfolding f by (simp add: mult_right_mono)
  then have "2 powi E \<le> fl v" by (simp only: u)
  moreover have "(2::real) powi e \<le> 2 powi E"
    using eE by (intro power_int_increasing) simp_all
  ultimately show ?thesis by simp
qed

lemma deltaError_eq: "deltaError = 7737125245533627 / 2 ^ 86"
  unfolding deltaError_def
  using fl_eval_lt1 [of "1 / 10 ^ 10" 34] by (simp add: roundHalfEven_def)

lemma deltaError_pos: "0 < deltaError"
  by (simp add: deltaError_eq)

lemma deltaError_ge: "2 powi (- 34) \<le> deltaError"
  by (simp add: deltaError_eq power_int_minus)

lemma deltaError_lt: "deltaError < 1 / 1000000"
  by (simp add: deltaError_eq)

lemma fl_add_deltaError_pos: "0 \<le> v \<Longrightarrow> 0 < fl (v + deltaError)"
proof -
  assume "0 \<le> v"
  with deltaError_ge have "2 powi (- 34) \<le> v + deltaError" by simp
  then have "2 powi (- 34) \<le> fl (v + deltaError)" by (rule fl_lower_pos) simp
  moreover have "(0::real) < 2 powi (- 34)" by simp
  ultimately show ?thesis by linarith
qed

text \<open>
  The roundings that are not exact in the evaluations below: \<open>10 / 30\<close>, \<open>30\<close> times
  its double, a lower bound for the double of the difference to \<open>1\<close>, and
  \<open>10 ^ 16 + 1\<close>, a tie that goes to the even significand.
\<close>

lemma fl_third: "fl (1 / 3) = 6004799503160661 / 18014398509481984"
  using fl_eval_lt1 [of "1 / 3" 2] by (simp add: roundHalfEven_def)

lemma fl_thirty_thirds: "fl (90071992547409915 / 9007199254740992) = 10"
  using fl_eval_ge1 [of 3 "90071992547409915 / 9007199254740992"]
  by (simp add: roundHalfEven_def)

lemma fl_two_thirds_lower: "1 / 2 \<le> fl (12009599006321323 / 18014398509481984)"
  using fl_lower_pos [of "- 1" "12009599006321323 / 18014398509481984"]
  by (simp add: power_int_minus)

lemma fl_1e16: "fl (10 ^ 16) = 10 ^ 16"
  using fl_exact [of "10 ^ 16" "5 ^ 16" 16] by simp

lemma fl_1e16_plus_1: "fl (10 ^ 16 + 1) = 10 ^ 16"
  using fl_eval_big [of 53 "10 ^ 16 + 1"] by (simp add: roundHalfEven_def)

section \<open>Properties of the geometry kernel\<close>







text \<open>
  C2, the code at the input \<open>cellSize = 64\<close>, \<open>(x, y) = (32, 32)\<close>. The point lies
  in the first cell, \<open>floor (32 / 64) + 1 = 1\<close> on both axes; \<^verbatim>\<open>toCell\<close> returns
  \<open>(3/2, 3/2)\<close>, since nothing in it rounds the quotient down to an integer.
\<close>

theorem toCell_not_floored:
  "toCell 64 32 32 = (3 / 2, 3 / 2) \<and>
   (of_int \<lfloor>32 / 64 :: real\<rfloor> + 1, of_int \<lfloor>32 / 64 :: real\<rfloor> + 1) = (1 :: real, 1 :: real) \<and>
   toCell 64 32 32 \<noteq> (of_int \<lfloor>32 / 64 :: real\<rfloor> + 1, of_int \<lfloor>32 / 64 :: real\<rfloor> + 1)"
  by (simp add: toCell_def)

section \<open>Properties of the segment clipping\<close>

lemma clipSide_bounds:
  assumes "clipSide side (ti1, ti2, n) = Inr (a, b, m)" and "ti1 \<le> ti2"
  shows "ti1 \<le> a \<and> a \<le> b \<and> b \<le> ti2"
  using assms
  by (cases side; cases n) (auto simp: clipSide_def Let_def split: if_splits)

lemma clipSides_bounds:
  assumes "clipSides sides (ti1, ti2, n) = Inr (a, b, m)" and "ti1 \<le> ti2"
  shows "ti1 \<le> a \<and> a \<le> b \<and> b \<le> ti2"
  using assms
proof (induction sides arbitrary: ti1 ti2 n)
  case Nil
  then show ?case by simp
next
  case (Cons side sides)
  from Cons.prems(1) obtain c d k where
    step: "clipSide side (ti1, ti2, n) = Inr (c, d, k)" and
    rest: "clipSides sides (c, d, k) = Inr (a, b, m)"
    by (auto split: sum.splits)
  from clipSide_bounds [OF step Cons.prems(2)] have 1: "ti1 \<le> c" "c \<le> d" "d \<le> ti2"
    by simp_all
  from Cons.IH [OF rest 1(2)] 1 show ?case by simp
qed

lemma getSII_bounds:
  assumes "getSegmentIntersectionIndices x y w h x1 y1 x2 y2 ti1 ti2 = Inr (a, b, m)"
    and "ti1 \<le> ti2"
  shows "ti1 \<le> a \<and> a \<le> b \<and> b \<le> ti2"
  using assms clipSides_bounds unfolding getSegmentIntersectionIndices_def Let_def by blast

lemma getSII_unfold:
  "getSegmentIntersectionIndices x y w h x1 y1 x2 y2 ti1 ti2 =
     clipSides [(- 1, 0, - fl (x2 - x1), fl (x1 - x)), (1, 0, fl (x2 - x1), fl (fl (x + w) - x1)),
                (0, - 1, - fl (y2 - y1), fl (y1 - y)), (0, 1, fl (y2 - y1), fl (fl (y + h) - y1))]
       (ti1, ti2, 0, 0, 0, 0)"
  by (simp add: getSegmentIntersectionIndices_def sideParams_def Let_def)

lemma sides_unfold:
  "map (sideParams x y w h x1 y1 dx dy) [1, 2, 3, 4] =
     [(- 1, 0, - dx, fl (x1 - x)), (1, 0, dx, fl (fl (x + w) - x1)),
      (0, - 1, - dy, fl (y1 - y)), (0, 1, dy, fl (fl (y + h) - y1))]"
  by (simp add: sideParams_def)

text \<open>What one side does to the bounds, case by case.\<close>

lemma clipSide_cases:
  "clipSide (nx, ny, p, q) (a, b, nx1, ny1, nx2, ny2) =
     (if p = 0 then (if q \<le> 0 then Inl ComputationError else Inr (a, b, nx1, ny1, nx2, ny2))
      else if p < 0 then
        (if b < fl (q / p) then Inl ComputationError
         else if a < fl (q / p) then Inr (fl (q / p), b, nx, ny, nx2, ny2)
         else Inr (a, b, nx1, ny1, nx2, ny2))
      else
        (if fl (q / p) < a then Inl ComputationError
         else if fl (q / p) < b then Inr (a, fl (q / p), nx1, ny1, nx, ny)
         else Inr (a, b, nx1, ny1, nx2, ny2)))"
  by (simp add: clipSide_def Let_def)

lemma clipSides_error:
  "clipSides sides s = Inl e \<Longrightarrow> e = ComputationError"
proof (induction sides arbitrary: s)
  case Nil
  then show ?case by simp
next
  case (Cons side sides)
  show ?case
  proof (cases "clipSide side s")
    case (Inl e')
    with Cons.prems have "e = e'" by simp
    moreover from Inl have "e' = ComputationError"
      by (cases side; cases s) (auto simp: clipSide_def Let_def split: if_splits)
    ultimately show ?thesis by simp
  next
    case (Inr s')
    with Cons.prems have "clipSides sides s' = Inl e" by simp
    then show ?thesis by (rule Cons.IH)
  qed
qed

lemma clipSides_not_Inr_iff:
  "(\<forall>s'. clipSides sides s \<noteq> Inr s') \<longleftrightarrow> clipSides sides s = Inl ComputationError"
  using clipSides_error by (cases "clipSides sides s") auto

lemma raisesOn_Cons:
  "raisesOn ((nx, ny, p, q) # sides) a b =
     (if p = 0 then q \<le> 0 \<or> raisesOn sides a b
      else if p < 0 then b < fl (q / p) \<or> raisesOn sides (max a (fl (q / p))) b
      else fl (q / p) < a \<or> raisesOn sides a (min b (fl (q / p))))"
proof -
  consider "p = 0" | "p < 0" | "0 < p" by linarith
  then show ?thesis
  proof cases
    case 1
    then show ?thesis
      unfolding raisesOn_def by (simp add: case_prod_beta; blast)
  next
    case 2
    then show ?thesis
      unfolding raisesOn_def
      by (simp add: case_prod_beta less_max_iff_disj; blast)
  next
    case 3
    then show ?thesis
      unfolding raisesOn_def
      by (simp add: case_prod_beta min_less_iff_disj; blast)
  qed
qed

lemma clipSides_raises_iff:
  assumes "a \<le> b"
  shows "clipSides sides (a, b, n) = Inl ComputationError \<longleftrightarrow> raisesOn sides a b"
  using assms
proof (induction sides arbitrary: a b n)
  case Nil
  then show ?case by (simp add: raisesOn_def)
next
  case (Cons side sides)
  obtain nx ny p q where side: "side = (nx, ny, p, q)" by (cases side)
  obtain nx1 ny1 nx2 ny2 where n: "n = (nx1, ny1, nx2, ny2)" by (cases n)
  consider "p = 0" | "p < 0" | "0 < p" by linarith
  then show ?case
  proof cases
    case 1
    then show ?thesis
      using Cons.IH [OF Cons.prems]
      by (simp add: side n clipSide_cases raisesOn_Cons)
  next
    case 2
    show ?thesis
    proof (cases "b < fl (q / p)")
      case True
      with 2 show ?thesis by (simp add: side n clipSide_cases raisesOn_Cons)
    next
      case False
      then have le: "max a (fl (q / p)) \<le> b" using Cons.prems by simp
      show ?thesis
      proof (cases "a < fl (q / p)")
        case True
        then have m: "max a (fl (q / p)) = fl (q / p)" by simp
        from Cons.IH [OF le, of "(nx, ny, nx2, ny2)"] 2 False True show ?thesis
          by (simp add: side n clipSide_cases raisesOn_Cons m)
      next
        case na: False
        then have m: "max a (fl (q / p)) = a" by simp
        from Cons.IH [OF Cons.prems, of "(nx1, ny1, nx2, ny2)"] 2 False na show ?thesis
          by (simp add: side n clipSide_cases raisesOn_Cons m)
      qed
    qed
  next
    case 3
    show ?thesis
    proof (cases "fl (q / p) < a")
      case True
      with 3 show ?thesis by (simp add: side n clipSide_cases raisesOn_Cons)
    next
      case False
      then have le: "a \<le> min b (fl (q / p))" using Cons.prems by simp
      show ?thesis
      proof (cases "fl (q / p) < b")
        case True
        then have m: "min b (fl (q / p)) = fl (q / p)" by simp
        from Cons.IH [OF le, of "(nx1, ny1, nx, ny)"] 3 False True show ?thesis
          by (simp add: side n clipSide_cases raisesOn_Cons m)
      next
        case nb: False
        then have m: "min b (fl (q / p)) = b" by simp
        from Cons.IH [OF Cons.prems, of "(nx1, ny1, nx2, ny2)"] 3 False nb show ?thesis
          by (simp add: side n clipSide_cases raisesOn_Cons m)
      qed
    qed
  qed
qed

lemma clipSides_parallel_raises:
  assumes "(nx, ny, p, q) \<in> set sides" and "p = 0" and "q \<le> 0"
  shows "clipSides sides s = Inl ComputationError"
  using assms(1)
proof (induction sides arbitrary: s)
  case Nil
  then show ?case by simp
next
  case (Cons side sides)
  show ?case
  proof (cases "clipSide side s")
    case (Inl e)
    then have "clipSides (side # sides) s = Inl e" by simp
    with clipSides_error show ?thesis by metis
  next
    case (Inr s')
    have "side \<noteq> (nx, ny, p, q)"
      using Inr assms(2,3) by (cases s) (auto simp: clipSide_cases)
    with Cons.prems have "(nx, ny, p, q) \<in> set sides" by simp
    from Cons.IH [OF this] Inr show ?thesis by simp
  qed
qed

lemma entryNormal_Cons:
  "entryNormal ((nx, ny, p, q) # sides) a =
     (if p < 0 \<and> fl (q / p) = a then (nx, ny) else entryNormal sides a)"
  by (simp add: entryNormal_def)

lemma exitNormal_Cons:
  "exitNormal ((nx, ny, p, q) # sides) b =
     (if 0 < p \<and> fl (q / p) = b then (nx, ny) else exitNormal sides b)"
  by (simp add: exitNormal_def)

lemma clipSides_entry_normal:
  assumes "clipSides sides (a0, b0, m1x, m1y, m2x, m2y) = Inr (a, b, n1x, n1y, n2x, n2y)"
  shows "a0 \<le> a \<and> (n1x, n1y) = (if a0 < a then entryNormal sides a else (m1x, m1y))"
  using assms
proof (induction sides arbitrary: a0 b0 m1x m1y m2x m2y)
  case Nil
  then show ?case by simp
next
  case (Cons side sides)
  obtain nx ny p q where side: "side = (nx, ny, p, q)" by (cases side)
  from Cons.prems obtain s' where
    step: "clipSide (nx, ny, p, q) (a0, b0, m1x, m1y, m2x, m2y) = Inr s'" and
    rest: "clipSides sides s' = Inr (a, b, n1x, n1y, n2x, n2y)"
    by (auto simp: side split: sum.splits)
  show ?case
  proof (cases "p < 0 \<and> \<not> b0 < fl (q / p) \<and> a0 < fl (q / p)")
    case True
    with step have s': "s' = (fl (q / p), b0, nx, ny, m2x, m2y)"
      by (simp add: clipSide_cases)
    from Cons.IH [OF rest [unfolded s']]
    have ih: "fl (q / p) \<le> a"
      "(n1x, n1y) = (if fl (q / p) < a then entryNormal sides a else (nx, ny))" by simp_all
    from True ih show ?thesis
      by (auto simp: side entryNormal_Cons)
  next
    case False
    with step obtain b' m2x' m2y' where s': "s' = (a0, b', m1x, m1y, m2x', m2y')"
      by (auto simp: clipSide_cases split: if_splits)
    from Cons.IH [OF rest [unfolded s']]
    have ih: "a0 \<le> a" "(n1x, n1y) = (if a0 < a then entryNormal sides a else (m1x, m1y))"
      by simp_all
    have "a0 < a \<Longrightarrow> \<not> (p < 0 \<and> fl (q / p) = a)"
      using False step by (auto simp: clipSide_cases split: if_splits)
    with ih show ?thesis
      by (auto simp: side entryNormal_Cons)
  qed
qed

lemma clipSides_exit_normal:
  assumes "clipSides sides (a0, b0, m1x, m1y, m2x, m2y) = Inr (a, b, n1x, n1y, n2x, n2y)"
  shows "b \<le> b0 \<and> (n2x, n2y) = (if b < b0 then exitNormal sides b else (m2x, m2y))"
  using assms
proof (induction sides arbitrary: a0 b0 m1x m1y m2x m2y)
  case Nil
  then show ?case by simp
next
  case (Cons side sides)
  obtain nx ny p q where side: "side = (nx, ny, p, q)" by (cases side)
  from Cons.prems obtain s' where
    step: "clipSide (nx, ny, p, q) (a0, b0, m1x, m1y, m2x, m2y) = Inr s'" and
    rest: "clipSides sides s' = Inr (a, b, n1x, n1y, n2x, n2y)"
    by (auto simp: side split: sum.splits)
  show ?case
  proof (cases "0 < p \<and> \<not> fl (q / p) < a0 \<and> fl (q / p) < b0")
    case True
    with step have s': "s' = (a0, fl (q / p), m1x, m1y, nx, ny)"
      by (simp add: clipSide_cases)
    from Cons.IH [OF rest [unfolded s']]
    have ih: "b \<le> fl (q / p)"
      "(n2x, n2y) = (if b < fl (q / p) then exitNormal sides b else (nx, ny))" by simp_all
    from True ih show ?thesis
      by (auto simp: side exitNormal_Cons)
  next
    case False
    with step obtain a' m1x' m1y' where s': "s' = (a', b0, m1x', m1y', m2x, m2y)"
      by (auto simp: clipSide_cases split: if_splits)
    from Cons.IH [OF rest [unfolded s']]
    have ih: "b \<le> b0" "(n2x, n2y) = (if b < b0 then exitNormal sides b else (m2x, m2y))"
      by simp_all
    have "b < b0 \<Longrightarrow> \<not> (0 < p \<and> fl (q / p) = b)"
      using False step by (auto simp: clipSide_cases split: if_splits)
    with ih show ?thesis
      by (auto simp: side exitNormal_Cons)
  qed
qed

lemma clipSides_sound:
  assumes "clipSides sides (a0, b0, m) = Inr (a, b, n)" and "(nx, ny, p, q) \<in> set sides"
  shows "(p < 0 \<longrightarrow> fl (q / p) \<le> a) \<and> (0 < p \<longrightarrow> b \<le> fl (q / p)) \<and> (p = 0 \<longrightarrow> 0 < q)"
  using assms
proof (induction sides arbitrary: a0 b0 m)
  case Nil
  then show ?case by simp
next
  case (Cons side sides)
  obtain m1x m1y m2x m2y where m: "m = (m1x, m1y, m2x, m2y)" by (cases m)
  obtain n1x n1y n2x n2y where n: "n = (n1x, n1y, n2x, n2y)" by (cases n)
  from Cons.prems(1) obtain a' b' m' where
    step: "clipSide side (a0, b0, m) = Inr (a', b', m')" and
    rest: "clipSides sides (a', b', m') = Inr (a, b, n)"
    by (auto split: sum.splits)
  obtain k1x k1y k2x k2y where m': "m' = (k1x, k1y, k2x, k2y)" by (cases m')
  from clipSides_entry_normal [OF rest [unfolded m' n]] have lo: "a' \<le> a" by simp
  from clipSides_exit_normal [OF rest [unfolded m' n]] have hi: "b \<le> b'" by simp
  show ?case
  proof (cases "side = (nx, ny, p, q)")
    case True
    with step lo hi show ?thesis
      by (auto simp: m clipSide_cases split: if_splits)
  next
    case False
    with Cons.prems(2) have "(nx, ny, p, q) \<in> set sides" by simp
    from Cons.IH [OF rest this] show ?thesis .
  qed
qed

lemma entryNormal_axis:
  assumes "clipSides sides (a0, b0, m1x, m1y, m2x, m2y) = Inr (a, b, n1x, n1y, n2x, n2y)"
    and "a0 < a"
  shows "\<exists>p q. (n1x, n1y, p, q) \<in> set sides \<and> p < 0 \<and> fl (q / p) = a"
  using assms
proof (induction sides arbitrary: a0 b0 m1x m1y m2x m2y)
  case Nil
  then show ?case by simp
next
  case (Cons side sides)
  obtain nx ny p q where side: "side = (nx, ny, p, q)" by (cases side)
  from Cons.prems obtain s' where
    step: "clipSide (nx, ny, p, q) (a0, b0, m1x, m1y, m2x, m2y) = Inr s'" and
    rest: "clipSides sides s' = Inr (a, b, n1x, n1y, n2x, n2y)"
    by (auto simp: side split: sum.splits)
  show ?case
  proof (cases "p < 0 \<and> \<not> b0 < fl (q / p) \<and> a0 < fl (q / p)")
    case True
    with step have s': "s' = (fl (q / p), b0, nx, ny, m2x, m2y)"
      by (simp add: clipSide_cases)
    from clipSides_entry_normal [OF rest [unfolded s']]
    have ih: "fl (q / p) \<le> a"
      "(n1x, n1y) = (if fl (q / p) < a then entryNormal sides a else (nx, ny))" by simp_all
    show ?thesis
    proof (cases "fl (q / p) < a")
      case lt: True
      from Cons.IH [OF rest [unfolded s'] lt] show ?thesis by auto
    next
      case False
      with ih have "fl (q / p) = a" "n1x = nx" "n1y = ny" by simp_all
      with True show ?thesis by (auto simp: side)
    qed
  next
    case False
    with step obtain b' m2x' m2y' where s': "s' = (a0, b', m1x, m1y, m2x', m2y')"
      by (auto simp: clipSide_cases split: if_splits)
    from Cons.IH [OF rest [unfolded s'] Cons.prems(2)] show ?thesis by auto
  qed
qed

lemma exitNormal_axis:
  assumes "clipSides sides (a0, b0, m1x, m1y, m2x, m2y) = Inr (a, b, n1x, n1y, n2x, n2y)"
    and "b < b0"
  shows "\<exists>p q. (n2x, n2y, p, q) \<in> set sides \<and> 0 < p \<and> fl (q / p) = b"
  using assms
proof (induction sides arbitrary: a0 b0 m1x m1y m2x m2y)
  case Nil
  then show ?case by simp
next
  case (Cons side sides)
  obtain nx ny p q where side: "side = (nx, ny, p, q)" by (cases side)
  from Cons.prems obtain s' where
    step: "clipSide (nx, ny, p, q) (a0, b0, m1x, m1y, m2x, m2y) = Inr s'" and
    rest: "clipSides sides s' = Inr (a, b, n1x, n1y, n2x, n2y)"
    by (auto simp: side split: sum.splits)
  show ?case
  proof (cases "0 < p \<and> \<not> fl (q / p) < a0 \<and> fl (q / p) < b0")
    case True
    with step have s': "s' = (a0, fl (q / p), m1x, m1y, nx, ny)"
      by (simp add: clipSide_cases)
    from clipSides_exit_normal [OF rest [unfolded s']]
    have ih: "b \<le> fl (q / p)"
      "(n2x, n2y) = (if b < fl (q / p) then exitNormal sides b else (nx, ny))" by simp_all
    show ?thesis
    proof (cases "b < fl (q / p)")
      case lt: True
      from Cons.IH [OF rest [unfolded s'] lt] show ?thesis by auto
    next
      case False
      with ih have "fl (q / p) = b" "n2x = nx" "n2y = ny" by simp_all
      with True show ?thesis by (auto simp: side)
    qed
  next
    case False
    with step obtain a' m1x' m1y' where s': "s' = (a', b0, m1x', m1y', m2x, m2y)"
      by (auto simp: clipSide_cases split: if_splits)
    from Cons.IH [OF rest [unfolded s'] Cons.prems(2)] show ?thesis by auto
  qed
qed

lemma maxNumber_gt_1: "1 < maxNumber"
  by (simp add: maxNumber_def)

subsection \<open>Claims about the segment clipping\<close>

text \<open>
  C10. When the seed bounds satisfy \<open>ti1 \<le> ti2\<close> and
  \<^verbatim>\<open>getSegmentIntersectionIndices\<close> returns without raising, the returned bounds
  \<open>(ti1', ti2')\<close> satisfy \<open>ti1 \<le> ti1' \<le> ti2' \<le> ti2\<close>: the seed interval is only
  tightened, never widened or inverted.
\<close>

theorem getSegmentIntersectionIndices_tightens:
  assumes "ti1 \<le> ti2"
    and "getSegmentIntersectionIndices x y w h x1 y1 x2 y2 ti1 ti2 =
           Inr (ti1', ti2', nx1, ny1, nx2, ny2)"
  shows "ti1 \<le> ti1' \<and> ti1' \<le> ti2' \<and> ti2' \<le> ti2"
  using getSII_bounds [OF assms(2) assms(1)] .

theorem getSegmentIntersectionIndices_tightens_witness:
  "(0::real) \<le> 1 \<and>
   getSegmentIntersectionIndices 0 0 10 10 (- 5) 2 15 6 0 1 = Inr (1 / 4, 3 / 4, - 1, 0, 1, 0) \<and>
   (0::real) \<le> 1 / 4 \<and> (1 / 4 :: real) \<le> 3 / 4 \<and> (3 / 4 :: real) \<le> 1"
proof -
  have s: "(0::real) \<le> 1" by simp
  have r: "getSegmentIntersectionIndices 0 0 10 10 (- 5) 2 15 6 0 1 =
             Inr (1 / 4, 3 / 4, - 1, 0, 1, 0)"
    by (simp add: getSII_unfold clipSide_cases)
  from getSegmentIntersectionIndices_tightens [OF s r] r show ?thesis by simp
qed




section \<open>Properties of the collision test\<close>

lemmas ev = detectCollision_def getDiff_def containsPoint_def getSII_unfold clipSide_cases
  fl_add_deltaError_pos

lemma corner_nonzero:
  assumes "containsPoint x y w h 0 0" and "getNearestCorner x y w h 0 0 = (px, py)"
  shows "(px = x \<or> px = fl (x + w)) \<and> (py = y \<or> py = fl (y + h)) \<and> px \<noteq> 0 \<and> py \<noteq> 0"
proof -
  from assms(1) deltaError_pos have "x \<noteq> 0" "y \<noteq> 0" "fl (x + w) \<noteq> 0" "fl (y + h) \<noteq> 0"
    by (auto simp: containsPoint_def)
  with assms(2) show ?thesis
    by (auto simp: getNearestCorner_def nearest_def split: if_splits)
qed

lemma detectCollision_overlap_zero:
  assumes "case getDiff x1 y1 w1 h1 x2 y2 w2 h2 of (x, y, w, h) \<Rightarrow> containsPoint x y w h 0 0"
  shows "case getDiff x1 y1 w1 h1 x2 y2 w2 h2 of (x, y, w, h) \<Rightarrow>
         case getNearestCorner x y w h 0 0 of (px, py) \<Rightarrow>
           detectCollision x1 y1 w1 h1 x2 y2 w2 h2 x1 y1 =
             Inr \<lparr>col_move = \<lparr>P_x = 0, P_y = 0\<rparr>,
                  col_normal = (if \<bar>px\<bar> < \<bar>py\<bar> then \<lparr>P_x = of_int (sign px), P_y = 0\<rparr>
                                else \<lparr>P_x = 0, P_y = of_int (sign py)\<rparr>),
                  col_touch = (if \<bar>px\<bar> < \<bar>py\<bar> then \<lparr>P_x = fl (x1 + px), P_y = fl y1\<rparr>
                               else \<lparr>P_x = fl x1, P_y = fl (y1 + py)\<rparr>),
                  col_itemRect = \<lparr>R_x = x1, R_y = y1, R_w = w1, R_h = h1\<rparr>,
                  col_otherRect = \<lparr>R_x = x2, R_y = y2, R_w = w2, R_h = h2\<rparr>,
                  col_overlaps = True, col_ti = - fl (min w1 \<bar>px\<bar> * min h1 \<bar>py\<bar>),
                  col_item = nullptr, col_other = nullptr,
                  col_slide = \<lparr>P_x = 0, P_y = 0\<rparr>,
                  col_bounce = \<lparr>P_x = 0, P_y = 0\<rparr>\<rparr>"
proof -
  obtain x y w h where d: "getDiff x1 y1 w1 h1 x2 y2 w2 h2 = (x, y, w, h)"
    by (simp add: getDiff_def)
  obtain px py where n: "getNearestCorner x y w h 0 0 = (px, py)"
    by (cases "getNearestCorner x y w h 0 0")
  from assms d have c: "containsPoint x y w h 0 0" by simp
  show ?thesis
    by (simp add: detectCollision_def d n c sign_def)
qed

subsection \<open>Claims about the collision test\<close>

text \<open>
  C1, the code at a pair of disjoint rectangles with zero motion: the mover
  \<open>(0, 0, 10, 10)\<close>, the other rectangle \<open>(20, 0, 10, 10)\<close>, the goal \<open>(0, 0)\<close>.
  The two do not intersect. The Minkowski difference \<open>(10, - 10, 20, 20)\<close> does not
  contain the origin, the motion is \<open>(0, 0)\<close>, so the clipping finds \<open>p = 0\<close> and
  \<open>q = - 10\<close> at the left side and raises; nothing catches the error, and it is the
  result of \<^verbatim>\<open>detectCollision\<close>.
\<close>

theorem detectCollision_disjoint_raises:
  "\<not> isIntersecting 0 0 10 10 20 0 10 10 \<and>
   detectCollision 0 0 10 10 20 0 10 10 0 0 = Inl ComputationError"
  using deltaError_pos deltaError_lt by (simp add: isIntersecting_def ev)

text \<open>
  A second input without a collision: the mover \<open>(0, 0, 10, 10)\<close> goes to \<open>(10, 0)\<close>
  and the other rectangle \<open>(100, 0, 10, 10)\<close> is far beyond the goal. The line of the
  motion enters the Minkowski difference at \<open>ti1 = 9\<close>. The source tests
  \<^verbatim>\<open>ti < 1\<close> on \<open>ti\<close>, which is \<open>0\<close> at that point, so the entry is accepted
  and the result carries \<open>ti = 9\<close>, the normal \<open>(- 1, 0)\<close> and the touch point
  \<open>(90, 0)\<close>.
\<close>

lemma detectCollision_beyond_goal:
  "detectCollision 0 0 10 10 100 0 10 10 10 0 =
     Inr \<lparr>col_move = \<lparr>P_x = 10, P_y = 0\<rparr>,
          col_normal = \<lparr>P_x = - 1, P_y = 0\<rparr>,
          col_touch = \<lparr>P_x = 90, P_y = 0\<rparr>,
          col_itemRect = \<lparr>R_x = 0, R_y = 0, R_w = 10, R_h = 10\<rparr>,
          col_otherRect = \<lparr>R_x = 100, R_y = 0, R_w = 10, R_h = 10\<rparr>,
          col_overlaps = False, col_ti = 9,
          col_item = nullptr, col_other = nullptr,
          col_slide = \<lparr>P_x = 0, P_y = 0\<rparr>,
          col_bounce = \<lparr>P_x = 0, P_y = 0\<rparr>\<rparr>"
  using deltaError_pos deltaError_lt by (simp add: ev maxNumber_def)




section \<open>Properties of the responses and of the world\<close>

text \<open>
  C3, counterexample. The collision is the one \<^verbatim>\<open>detectCollision\<close> gives for the
  mover \<open>(0, 0, 10, 10)\<close>, the obstacle \<open>(20, 0, 10, 10)\<close> and the goal \<open>(20, 0)\<close>;
  its touch point is \<open>(10, 0)\<close>. \<^verbatim>\<open>cross\<close>, called with the mover's position
  \<open>(0, 0)\<close>, asks \<^verbatim>\<open>project\<close> to start from \<open>(0, 0)\<close>: the collision list it
  returns is not the one of a projection started from the touch point.
\<close>

theorem cross_from_touch_counterexample:
  "detectCollision 0 0 10 10 20 0 10 10 20 0 =
     Inr \<lparr>col_move = \<lparr>P_x = 20, P_y = 0\<rparr>,
          col_normal = \<lparr>P_x = - 1, P_y = 0\<rparr>,
          col_touch = \<lparr>P_x = 10, P_y = 0\<rparr>,
          col_itemRect = \<lparr>R_x = 0, R_y = 0, R_w = 10, R_h = 10\<rparr>,
          col_otherRect = \<lparr>R_x = 20, R_y = 0, R_w = 10, R_h = 10\<rparr>,
          col_overlaps = False, col_ti = 1 / 2,
          col_item = nullptr, col_other = nullptr,
          col_slide = \<lparr>P_x = 0, P_y = 0\<rparr>,
          col_bounce = \<lparr>P_x = 0, P_y = 0\<rparr>\<rparr> \<and>
   fst (cross reportingProject (newWorld 64)
          \<lparr>col_move = \<lparr>P_x = 20, P_y = 0\<rparr>,
           col_normal = \<lparr>P_x = - 1, P_y = 0\<rparr>,
           col_touch = \<lparr>P_x = 10, P_y = 0\<rparr>,
           col_itemRect = \<lparr>R_x = 0, R_y = 0, R_w = 10, R_h = 10\<rparr>,
           col_otherRect = \<lparr>R_x = 20, R_y = 0, R_w = 10, R_h = 10\<rparr>,
           col_overlaps = False, col_ti = 1 / 2,
           col_item = nullptr, col_other = nullptr,
           col_slide = \<lparr>P_x = 0, P_y = 0\<rparr>,
           col_bounce = \<lparr>P_x = 0, P_y = 0\<rparr>\<rparr>
          0 0 10 10 20 0 admitAll) =
     (20, 0, reportingProject (newWorld 64) nullptr 0 0 10 10 20 0 admitAll) \<and>
   reportingProject (newWorld 64) nullptr 0 0 10 10 20 0 admitAll \<noteq>
     reportingProject (newWorld 64) nullptr 10 0 10 10 20 0 admitAll"
  using deltaError_pos deltaError_lt
  by (simp add: cross_def reportingProject_def ev maxNumber_def)

text \<open>
  C3 (as the code has it). \<^verbatim>\<open>cross\<close> returns the original goal as the resolved
  position, leaves the collision as it is, and takes its further collisions from
  \<^verbatim>\<open>project\<close> called with the collision's item, the position \<open>(x, y)\<close> and size
  \<open>(w, h)\<close> that \<^verbatim>\<open>cross\<close> itself was given, the original goal and the same
  filter. With the source's \<^verbatim>\<open>World::project\<close> that list is empty.
\<close>

theorem cross_projects_from_given_position:
  "cross project world col x y w h goalX goalY flt =
     ((goalX, goalY,
       fst (project world (col_item col) x y w h goalX goalY flt),
       snd (project world (col_item col) x y w h goalX goalY flt)), col) \<and>
   cross World_project world col x y w h goalX goalY flt = ((goalX, goalY, [], 0), col)"
  by (simp add: cross_def World_project_def split: prod.splits)

text \<open>
  C5. For a collision with non-zero motion, \<^verbatim>\<open>slide\<close> keeps the goal's coordinate
  on the axis where the normal is zero and takes the touch point's coordinate on the
  other one: the adjusted goal is \<open>(goalX, touch.y)\<close> when \<open>normal.x = 0\<close> and
  \<open>(touch.x, goalY)\<close> otherwise. It stores the adjusted goal in the collision's
  \<open>slide\<close> field, returns it as the resolved position, and takes its further
  collisions from \<^verbatim>\<open>project\<close> started at the touch point and aimed at the adjusted
  goal. For the mover \<open>(0, 0, 10, 10)\<close>, the goal \<open>(30, 0)\<close> and the obstacle
  \<open>(20, 0, 10, 10)\<close>, the collision found by \<^verbatim>\<open>detectCollision\<close> makes
  \<^verbatim>\<open>slide\<close> resolve to \<open>(10, 0)\<close>, with the projection started at \<open>(10, 0)\<close>.
  (Here \<open>ti\<close> is the double nearest to \<open>10 / 30\<close>, and \<open>30 * ti\<close> rounds to
  \<open>10\<close>.)
\<close>

theorem slide_adjusted_goal:
  "(P_x (col_move col) \<noteq> 0 \<or> P_y (col_move col) \<noteq> 0 \<longrightarrow>
      slide project world col x y w h goalX goalY flt =
        (let sx = (if P_x (col_normal col) = 0 then goalX else P_x (col_touch col));
             sy = (if P_x (col_normal col) = 0 then P_y (col_touch col) else goalY)
         in ((sx, sy,
              fst (project world (col_item col) (P_x (col_touch col)) (P_y (col_touch col))
                     w h sx sy flt),
              snd (project world (col_item col) (P_x (col_touch col)) (P_y (col_touch col))
                     w h sx sy flt)),
             col\<lparr>col_slide := \<lparr>P_x = sx, P_y = sy\<rparr>\<rparr>))) \<and>
   (\<exists>c. detectCollision 0 0 10 10 20 0 10 10 30 0 = Inr c \<and>
        (P_x (col_move c) \<noteq> 0 \<or> P_y (col_move c) \<noteq> 0) \<and>
        fst (slide project world c 0 0 10 10 30 0 flt) =
          (10, 0, project world (col_item c) 10 0 10 10 10 0 flt))"
proof (intro conjI impI)
  assume "P_x (col_move col) \<noteq> 0 \<or> P_y (col_move col) \<noteq> 0"
  then show "slide project world col x y w h goalX goalY flt =
        (let sx = (if P_x (col_normal col) = 0 then goalX else P_x (col_touch col));
             sy = (if P_x (col_normal col) = 0 then P_y (col_touch col) else goalY)
         in ((sx, sy,
              fst (project world (col_item col) (P_x (col_touch col)) (P_y (col_touch col))
                     w h sx sy flt),
              snd (project world (col_item col) (P_x (col_touch col)) (P_y (col_touch col))
                     w h sx sy flt)),
             col\<lparr>col_slide := \<lparr>P_x = sx, P_y = sy\<rparr>\<rparr>))"
    by (auto simp: slide_def Let_def split: prod.splits)
next
  have "detectCollision 0 0 10 10 20 0 10 10 30 0 =
          Inr \<lparr>col_move = \<lparr>P_x = 30, P_y = 0\<rparr>,
               col_normal = \<lparr>P_x = - 1, P_y = 0\<rparr>,
               col_touch = \<lparr>P_x = 10, P_y = 0\<rparr>,
               col_itemRect = \<lparr>R_x = 0, R_y = 0, R_w = 10, R_h = 10\<rparr>,
               col_otherRect = \<lparr>R_x = 20, R_y = 0, R_w = 10, R_h = 10\<rparr>,
               col_overlaps = False, col_ti = 6004799503160661 / 18014398509481984,
               col_item = nullptr, col_other = nullptr,
               col_slide = \<lparr>P_x = 0, P_y = 0\<rparr>,
               col_bounce = \<lparr>P_x = 0, P_y = 0\<rparr>\<rparr>"
    using deltaError_pos deltaError_lt fl_two_thirds_lower
    by (simp add: ev maxNumber_def fl_third fl_thirty_thirds)
  then show "\<exists>c. detectCollision 0 0 10 10 20 0 10 10 30 0 = Inr c \<and>
        (P_x (col_move c) \<noteq> 0 \<or> P_y (col_move c) \<noteq> 0) \<and>
        fst (slide project world c 0 0 10 10 30 0 flt) =
          (10, 0, project world (col_item c) 10 0 10 10 10 0 flt)"
    by (simp add: slide_def Let_def split: prod.splits)
qed

theorem slide_adjusted_goal_witness:
  "P_x \<lparr>P_x = 30, P_y = 0\<rparr> \<noteq> (0::real) \<and>
   fst (slide World_project (newWorld 64)
          \<lparr>col_move = \<lparr>P_x = 30, P_y = 0\<rparr>,
           col_normal = \<lparr>P_x = - 1, P_y = 0\<rparr>,
           col_touch = \<lparr>P_x = 10, P_y = 0\<rparr>,
           col_itemRect = \<lparr>R_x = 0, R_y = 0, R_w = 10, R_h = 10\<rparr>,
           col_otherRect = \<lparr>R_x = 20, R_y = 0, R_w = 10, R_h = 10\<rparr>,
           col_overlaps = False, col_ti = 1 / 3,
           col_item = nullptr, col_other = nullptr,
           col_slide = \<lparr>P_x = 0, P_y = 0\<rparr>,
           col_bounce = \<lparr>P_x = 0, P_y = 0\<rparr>\<rparr>
          0 0 10 10 30 0 admitAll) = (10, 0, [], 0)"
  using slide_adjusted_goal
    [where project = World_project and world = "newWorld 64" and x = 0 and y = 0
       and w = 10 and h = 10 and goalX = 30 and goalY = 0 and flt = admitAll
       and col = "\<lparr>col_move = \<lparr>P_x = 30, P_y = 0\<rparr>,
           col_normal = \<lparr>P_x = - 1, P_y = 0\<rparr>,
           col_touch = \<lparr>P_x = 10, P_y = 0\<rparr>,
           col_itemRect = \<lparr>R_x = 0, R_y = 0, R_w = 10, R_h = 10\<rparr>,
           col_otherRect = \<lparr>R_x = 20, R_y = 0, R_w = 10, R_h = 10\<rparr>,
           col_overlaps = False, col_ti = 1 / 3,
           col_item = nullptr, col_other = nullptr,
           col_slide = \<lparr>P_x = 0, P_y = 0\<rparr>,
           col_bounce = \<lparr>P_x = 0, P_y = 0\<rparr>\<rparr>"]
  by (simp add: World_project_def Let_def)

text \<open>
  C4, the code at the first insertion into a new world: the item at address 7, the
  cell \<open>(1, 1)\<close>. After \<^verbatim>\<open>addItemToCell\<close> the rows have been grown to hold the
  cell and the cell is a key of \<^verbatim>\<open>nonEmptyCells\<close>, but its item list is empty and
  its item count is 0: the item has not been put in the cell.
\<close>

theorem addItemToCell_item_not_stored:
  "\<exists>world'. addItemToCell (newWorld 64) 7 1 1 = Some world' \<and>
     w_rows world' = [[], [emptyCell, emptyCell]] \<and>
     w_nonEmptyCells world' (1, 1) = Some True \<and>
     c_items (w_rows world' ! 1 ! 1) = [] \<and>
     c_itemCount (w_rows world' ! 1 ! 1) = 0 \<and>
     7 \<notin> set (c_items (w_rows world' ! 1 ! 1))"
  by (simp add: addItemToCell_def newWorld_def toIndex_def resize_def Let_def
      numeral_2_eq_2 emptyCell_def)

end
